theory Spec2Isabelle
  imports Complex_Main "HOL-Library.Sublist"
begin

section \<open>The stream worker of main.py (class VideoWorker)\<close>

text \<open>
  The worker is modelled with explicit state passing. The fields of the record
  \<open>video_worker\<close> are the attributes that \<open>VideoWorker.__init__\<close> creates, followed by
  two observation fields: \<open>trace\<close>, the signals emitted and the sleeps performed so far
  in chronological order, and \<open>files\<close>, the output containers closed so far.

  PyAV and Qt are outside the repository. What they do is supplied from outside the
  worker: the record \<open>av_env\<close> says which library calls raise, and the script of a
  connection attempt says what the opened source delivers.
\<close>

subsection \<open>Frames, packets and the encoder\<close>

record image =
  img_w :: nat
  img_h :: nat
  img_data :: nat

text \<open>A decoded \<open>av.VideoFrame\<close>: its \<open>pts\<close> may be \<open>None\<close>.\<close>

record vframe =
  pts :: "int option"
  picture :: image

text \<open>The frame built by \<open>av.VideoFrame.from_ndarray\<close> with the output timestamp assigned.\<close>

record new_frame =
  nf_picture :: image
  nf_pts :: int

type_synonym packet = new_frame

text \<open>
  The encoder behind \<open>self._output_stream\<close>. It holds back up to \<open>enc_delay\<close> frames:
  \<open>encode(frame)\<close> returns the packets that exceed the delay, \<open>encode()\<close> drains the
  rest. \<open>enc_submitted\<close> lists every frame handed to \<open>encode\<close>, in call order.
\<close>

record encoder =
  enc_delay :: nat
  enc_pending :: "packet list"
  enc_submitted :: "new_frame list"

definition encode_frame :: "encoder \<Rightarrow> new_frame \<Rightarrow> packet list \<times> encoder" where
  "encode_frame enc nf =
     (let buf = enc_pending enc @ [nf]; n = length buf - enc_delay enc
      in (take n buf,
          enc\<lparr>enc_pending := drop n buf, enc_submitted := enc_submitted enc @ [nf]\<rparr>))"

definition encode_flush :: "encoder \<Rightarrow> packet list \<times> encoder" where
  "encode_flush enc = (enc_pending enc, enc\<lparr>enc_pending := []\<rparr>)"

record out_stream =
  os_codec :: string
  os_rate :: rat
  os_width :: nat
  os_height :: nat
  os_pix_fmt :: string
  os_bit_rate :: nat
  os_encoder :: encoder

record out_container =
  oc_path :: string
  oc_format :: string
  oc_packets :: "packet list"

subsection \<open>Exceptions, signals, environment\<close>

datatype exn = AvError string | OtherError string

fun exn_msg :: "exn \<Rightarrow> string" where
  "exn_msg (AvError m) = m"
| "exn_msg (OtherError m) = m"

text \<open>
  The four Qt signals of the worker, and \<open>Sleep d\<close> for a call of \<open>time.sleep\<close> that
  lasts \<open>d\<close> milliseconds.
\<close>

datatype event =
    FrameReady image
  | Status string
  | Stopped
  | RecordingStatus bool
  | Sleep nat

text \<open>
  Which calls into PyAV raise. \<open>open_output path\<close> and \<open>add_stream codec rate\<close> give
  the message of the exception, or \<open>None\<close> when the call succeeds.
\<close>

record av_env =
  open_output :: "string \<Rightarrow> string option"
  add_stream :: "string \<Rightarrow> rat \<Rightarrow> string option"
  encoder_delay :: nat
  close_ok :: "string \<Rightarrow> bool"

subsection \<open>The worker state\<close>

record video_worker =
  thread :: "bool option"
  stop_flag :: bool
  last_qimage :: "image option"
  recording :: bool
  output_container :: "out_container option"
  output_stream :: "out_stream option"
  recording_path :: "string option"
  frame_count :: int
  recording_start_pts :: "int option"
  trace :: "event list"
  files :: "(string \<times> packet list) list"

text \<open>
  \<open>thread\<close> is \<open>None\<close> when \<open>self._thread\<close> is \<open>None\<close>, and \<open>Some alive\<close> otherwise,
  where \<open>alive\<close> is what \<open>is_alive()\<close> returns.
\<close>

definition init_worker :: video_worker where
  "init_worker =
     \<lparr>thread = None, stop_flag = False, last_qimage = None, recording = False,
      output_container = None, output_stream = None, recording_path = None,
      frame_count = 0, recording_start_pts = None, trace = [], files = []\<rparr>"

definition emit :: "event \<Rightarrow> video_worker \<Rightarrow> video_worker" where
  "emit e s = s\<lparr>trace := trace s @ [e]\<rparr>"

subsection \<open>Controller-facing operations\<close>

text \<open>
  \<open>stop\<close>: \<open>joined\<close> is what the worker thread does to the state while the controller
  waits in \<open>join(timeout=2)\<close>.
\<close>

definition stop :: "(video_worker \<Rightarrow> video_worker) \<Rightarrow> video_worker \<Rightarrow> video_worker" where
  "stop joined s =
     (let s1 = (if thread s = Some True then joined (s\<lparr>stop_flag := True\<rparr>) else s)
      in s1\<lparr>thread := None\<rparr>)"

text \<open>
  \<open>start\<close> stops a previous run, clears the cancel flag and launches the thread that
  executes \<open>_run\<close>.
\<close>

definition start :: "(video_worker \<Rightarrow> video_worker) \<Rightarrow> video_worker \<Rightarrow> video_worker" where
  "start joined s = (stop joined s)\<lparr>stop_flag := False, thread := Some True\<rparr>"

text \<open>
  \<open>save_snapshot\<close>: \<open>save\<close> is \<open>QImage.save\<close>, which reports whether the file was
  written.
\<close>

definition save_snapshot :: "(image \<Rightarrow> string \<Rightarrow> bool) \<Rightarrow> string \<Rightarrow> video_worker \<Rightarrow> bool" where
  "save_snapshot save path s =
     (case last_qimage s of None \<Rightarrow> False | Some q \<Rightarrow> save q path)"

definition start_recording :: "string \<Rightarrow> video_worker \<Rightarrow> bool \<times> video_worker" where
  "start_recording path s =
     (if recording s then (False, s)
      else (True, emit (RecordingStatus True) (s\<lparr>recording_path := Some path, recording := True\<rparr>)))"

definition close_container :: "av_env \<Rightarrow> out_container \<Rightarrow> video_worker \<Rightarrow> video_worker" where
  "close_container env c s =
     (if close_ok env (oc_path c) then s\<lparr>files := files s @ [(oc_path c, oc_packets c)]\<rparr> else s)"

definition stop_recording :: "av_env \<Rightarrow> video_worker \<Rightarrow> video_worker" where
  "stop_recording env s =
     (if \<not> recording s then s
      else
        (let s1 = s\<lparr>recording := False\<rparr>;
             s2 = (case output_container s1 of
                     None \<Rightarrow> s1
                   | Some c \<Rightarrow> (close_container env c s1)\<lparr>output_container := None, output_stream := None\<rparr>)
         in emit (RecordingStatus False) s2))"

definition is_recording :: "video_worker \<Rightarrow> bool" where
  "is_recording s = recording s"

subsection \<open>The worker thread: recording inside the decode loop\<close>

record stream_info =
  si_average_rate :: "rat option"
  si_width :: nat
  si_height :: nat

text \<open>
  One decoded frame together with what happens around it: the controller commands that
  take effect before the frame is looked at, and which library calls raise for this
  frame. \<open>conv_err\<close> is \<open>frame.to_ndarray(format='rgb24')\<close> raising (the same call is
  made for recording and for display), \<open>enc_err\<close> is \<open>encode(new_frame)\<close> raising, and
  \<open>mux_err = Some (k, m)\<close> makes the \<open>k\<close>-th \<open>mux\<close> call of this frame (counted from 0)
  raise with message \<open>m\<close>.
\<close>

datatype command = CStartRecording string | CStopRecording | CSetStop

record frame_item =
  cmds :: "command list"
  frm :: vframe
  conv_err :: "exn option"
  enc_err :: "string option"
  mux_err :: "(nat \<times> string) option"

definition apply_command :: "av_env \<Rightarrow> command \<Rightarrow> video_worker \<Rightarrow> video_worker" where
  "apply_command env c s =
     (case c of
        CStartRecording p \<Rightarrow> snd (start_recording p s)
      | CStopRecording \<Rightarrow> stop_recording env s
      | CSetStop \<Rightarrow> s\<lparr>stop_flag := True\<rparr>)"

fun controller :: "av_env \<Rightarrow> command list \<Rightarrow> video_worker \<Rightarrow> video_worker" where
  "controller env [] s = s"
| "controller env (c # cs) s = controller env cs (apply_command env c s)"

text \<open>\<open>stream.average_rate or 30\<close>: \<open>None\<close> and a zero rate are both falsy.\<close>

definition rate_or_default :: "rat option \<Rightarrow> rat" where
  "rate_or_default r = (case r of None \<Rightarrow> 30 | Some q \<Rightarrow> if q = 0 then 30 else q)"

text \<open>The \<open>except\<close> branch of the initialisation (lines 156 to 159).\<close>

definition init_failed :: "string \<Rightarrow> video_worker \<Rightarrow> video_worker" where
  "init_failed m s =
     emit (RecordingStatus False)
       ((emit (Status (''Recording init failed: '' @ m)) s)\<lparr>recording := False\<rparr>)"

text \<open>
  The \<open>try\<close> block of the initialisation (lines 146 to 155), entered with the recorded
  path \<open>p\<close>. The container is assigned as soon as \<open>av.open\<close> returns; \<open>add_stream\<close> is
  called after that.
\<close>

definition materialize :: "av_env \<Rightarrow> stream_info \<Rightarrow> vframe \<Rightarrow> string \<Rightarrow> video_worker \<Rightarrow> video_worker" where
  "materialize env info f p s =
     (case open_output env p of
        Some m \<Rightarrow> init_failed m s
      | None \<Rightarrow>
          (let s1 = s\<lparr>output_container := Some \<lparr>oc_path = p, oc_format = ''matroska'', oc_packets = []\<rparr>\<rparr>;
               r = rate_or_default (si_average_rate info)
           in case add_stream env ''h264'' r of
                Some m \<Rightarrow> init_failed m s1
              | None \<Rightarrow>
                  s1\<lparr>output_stream :=
                        Some \<lparr>os_codec = ''h264'', os_rate = r,
                              os_width = si_width info, os_height = si_height info,
                              os_pix_fmt = ''yuv420p'', os_bit_rate = 2000000,
                              os_encoder = \<lparr>enc_delay = encoder_delay env, enc_pending = [],
                                            enc_submitted = []\<rparr>\<rparr>,
                      recording_start_pts := pts f,
                      frame_count := 0\<rparr>))"

text \<open>The output timestamp of lines 171 to 175.\<close>

definition output_pts :: "vframe \<Rightarrow> video_worker \<Rightarrow> int" where
  "output_pts f s =
     (case (pts f, recording_start_pts s) of
        (Some t, Some t0) \<Rightarrow> t - t0
      | _ \<Rightarrow> frame_count s)"

text \<open>
  \<open>for packet in packets: container.mux(packet)\<close>: the packets before the failing call
  are in the container, the others are lost.
\<close>

definition mux_packets :: "(nat \<times> string) option \<Rightarrow> packet list \<Rightarrow> out_container \<Rightarrow> string option \<times> out_container" where
  "mux_packets err pkts c =
     (case err of
        None \<Rightarrow> (None, c\<lparr>oc_packets := oc_packets c @ pkts\<rparr>)
      | Some (k, m) \<Rightarrow>
          if k < length pkts then (Some m, c\<lparr>oc_packets := oc_packets c @ take k pkts\<rparr>)
          else (None, c\<lparr>oc_packets := oc_packets c @ pkts\<rparr>))"

definition recording_error :: "string \<Rightarrow> video_worker \<Rightarrow> video_worker" where
  "recording_error m s = emit (Status (''Recording error: '' @ m)) s"

text \<open>The \<open>try\<close> block that writes one frame (lines 163 to 181).\<close>

definition write_frame :: "frame_item \<Rightarrow> out_container \<Rightarrow> out_stream \<Rightarrow> video_worker \<Rightarrow> video_worker" where
  "write_frame it c st s =
     (case conv_err it of
        Some e \<Rightarrow> recording_error (exn_msg e) s
      | None \<Rightarrow>
          (let nf = \<lparr>nf_picture = picture (frm it), nf_pts = output_pts (frm it) s\<rparr>;
               s1 = s\<lparr>frame_count := frame_count s + 1\<rparr>
           in case enc_err it of
                Some m \<Rightarrow>
                  recording_error m
                    (s1\<lparr>output_stream :=
                          Some (st\<lparr>os_encoder := (os_encoder st)\<lparr>enc_submitted :=
                                  enc_submitted (os_encoder st) @ [nf]\<rparr>\<rparr>)\<rparr>)
              | None \<Rightarrow>
                  (let (pkts, enc') = encode_frame (os_encoder st) nf;
                       s2 = s1\<lparr>output_stream := Some (st\<lparr>os_encoder := enc'\<rparr>)\<rparr>;
                       (r, c') = mux_packets (mux_err it) pkts c;
                       s3 = s2\<lparr>output_container := Some c'\<rparr>
                   in case r of None \<Rightarrow> s3 | Some m \<Rightarrow> recording_error m s3)))"

text \<open>
  The block under \<open>self._recording_lock\<close> for one frame (lines 143 to 181). An empty
  path is falsy, as \<open>None\<close> is.
\<close>

definition record_frame :: "av_env \<Rightarrow> stream_info \<Rightarrow> frame_item \<Rightarrow> video_worker \<Rightarrow> video_worker" where
  "record_frame env info it s =
     (let s1 = (case recording_path s of
                  Some p \<Rightarrow>
                    if recording s \<and> output_container s = None \<and> p \<noteq> []
                    then materialize env info (frm it) p s else s
                | None \<Rightarrow> s)
      in case (output_container s1, output_stream s1) of
           (Some c, Some st) \<Rightarrow> if recording s1 then write_frame it c st s1 else s1
         | _ \<Rightarrow> s1)"

text \<open>Lines 184 to 189: the copy of the frame is cached, then delivered.\<close>

definition deliver :: "vframe \<Rightarrow> video_worker \<Rightarrow> video_worker" where
  "deliver f s = emit (FrameReady (picture f)) (s\<lparr>last_qimage := Some (picture f)\<rparr>)"

subsection \<open>The worker thread: decode loop and reconnect loop\<close>

datatype ending = EndOfStream | Raises exn

text \<open>
  \<open>for frame in container.decode(stream)\<close>. The result is the exception that leaves the
  loop, or \<open>None\<close> when the loop ends by exhaustion or by \<open>break\<close>.
\<close>

fun decode_loop :: "av_env \<Rightarrow> stream_info \<Rightarrow> ending \<Rightarrow> frame_item list \<Rightarrow> video_worker \<Rightarrow> exn option \<times> video_worker" where
  "decode_loop env info en [] s =
     (case en of EndOfStream \<Rightarrow> (None, s) | Raises e \<Rightarrow> (Some e, s))"
| "decode_loop env info en (it # its) s =
     (let s1 = controller env (cmds it) s
      in if stop_flag s1 then (None, s1)
         else
           (let s2 = record_frame env info it s1
            in case conv_err it of
                 Some e \<Rightarrow> (Some e, s2)
               | None \<Rightarrow> decode_loop env info en its (deliver (frm it) s2)))"

datatype source =
    OpenError exn
  | NoVideoStream
  | Video stream_info "frame_item list" ending

text \<open>
  One iteration of the reconnect loop as the environment scripts it. \<open>end_cmds\<close> are
  the controller commands that take effect after the last frame and before the cancel
  check that follows (line 200, 205 or 210); \<open>sleep_cmds\<close> those that arrive during the
  sleep. \<open>flush_enc_err\<close> is \<open>encode()\<close> raising in the flush, \<open>flush_mux_err\<close> a \<open>mux\<close>
  call raising there.
\<close>

record attempt =
  source :: source
  end_cmds :: "command list"
  flush_enc_err :: bool
  flush_mux_err :: "(nat \<times> string) option"
  sleep_cmds :: "command list"

definition ellipsis :: string where
  "ellipsis = [CHR 0xE2, CHR 0x80, CHR 0xA6]"

fun retry_msg :: "exn \<Rightarrow> string" where
  "retry_msg (AvError m) = ''FFmpeg/PyAV error: '' @ m @ ''; retrying in 2s'' @ ellipsis"
| "retry_msg (OtherError m) = ''Error: '' @ m @ ''; retrying in 2s'' @ ellipsis"

definition connecting_msg :: string where
  "connecting_msg = ''Connecting'' @ ellipsis"

definition stream_ended_msg :: string where
  "stream_ended_msg = ''Stream ended, reconnecting in 2s'' @ ellipsis"

text \<open>Lines 192 to 198. Every exception of the flush is swallowed.\<close>

definition flush_encoder :: "attempt \<Rightarrow> video_worker \<Rightarrow> video_worker" where
  "flush_encoder a s =
     (case output_stream s of
        None \<Rightarrow> s
      | Some st \<Rightarrow>
          if \<not> recording s \<or> flush_enc_err a then s
          else
            (let (pkts, enc') = encode_flush (os_encoder st);
                 s1 = s\<lparr>output_stream := Some (st\<lparr>os_encoder := enc'\<rparr>)\<rparr>
             in case output_container s1 of
                  None \<Rightarrow> s1
                | Some c \<Rightarrow> s1\<lparr>output_container := Some (snd (mux_packets (flush_mux_err a) pkts c))\<rparr>))"

text \<open>
  The \<open>except\<close> handlers and the tail of the \<open>try\<close> block: the Boolean says whether the
  \<open>while\<close> loop goes on (\<open>False\<close> is \<open>break\<close>).
\<close>

definition backoff :: "av_env \<Rightarrow> attempt \<Rightarrow> string \<Rightarrow> video_worker \<Rightarrow> bool \<times> video_worker" where
  "backoff env a m s =
     (if stop_flag s then (False, s)
      else (True, controller env (sleep_cmds a) (emit (Sleep 2000) (emit (Status m) s))))"

definition attempt_step :: "av_env \<Rightarrow> attempt \<Rightarrow> video_worker \<Rightarrow> bool \<times> video_worker" where
  "attempt_step env a s =
     (let s1 = emit (Status connecting_msg) s
      in case source a of
           OpenError e \<Rightarrow> backoff env a (retry_msg e) (controller env (end_cmds a) s1)
         | NoVideoStream \<Rightarrow> (False, emit (Status ''No video stream found'') s1)
         | Video info items en \<Rightarrow>
             (case decode_loop env info en items (emit (Status ''Playing'') s1) of
                (Some e, s2) \<Rightarrow> backoff env a (retry_msg e) (controller env (end_cmds a) s2)
              | (None, s2) \<Rightarrow>
                  backoff env a stream_ended_msg
                    (flush_encoder a (controller env (end_cmds a) s2))))"

text \<open>Lines 215 to 217.\<close>

definition finish :: "av_env \<Rightarrow> video_worker \<Rightarrow> video_worker" where
  "finish env s = emit Stopped (stop_recording env s)"

text \<open>
  \<open>_run\<close> against a finite script of connection attempts. The result is \<open>None\<close> when
  the script is used up and the loop has not been left: the source retries without
  bound, so it would go on to a further attempt.
\<close>

fun run :: "av_env \<Rightarrow> attempt list \<Rightarrow> video_worker \<Rightarrow> video_worker option" where
  "run env [] s = (if stop_flag s then Some (finish env s) else None)"
| "run env (a # rest) s =
     (if stop_flag s then Some (finish env s)
      else case attempt_step env a s of
             (False, s') \<Rightarrow> Some (finish env s')
           | (True, s') \<Rightarrow> run env rest s')"

section \<open>Observations\<close>

text \<open>The pictures delivered to the frame sink, in order of delivery.\<close>

fun sink_frames :: "event list \<Rightarrow> image list" where
  "sink_frames [] = []"
| "sink_frames (FrameReady q # es) = q # sink_frames es"
| "sink_frames (e # es) = sink_frames es"

text \<open>The frames handed to the encoder of the current session, in call order.\<close>

definition submitted_frames :: "video_worker \<Rightarrow> new_frame list" where
  "submitted_frames s =
     (case output_stream s of None \<Rightarrow> [] | Some st \<Rightarrow> enc_submitted (os_encoder st))"

text \<open>The condition of line 162: the session has its container and its stream.\<close>

definition session_active :: "video_worker \<Rightarrow> bool" where
  "session_active s =
     (recording s \<and> output_container s \<noteq> None \<and> output_stream s \<noteq> None)"

text \<open>
  What the specification expects the encoder to receive for a list of frames: the
  picture of each frame, stamped with its timestamp minus the rebase timestamp \<open>t0\<close>
  when both exist, and with the running frame number otherwise.
\<close>

fun stamped :: "int option \<Rightarrow> int \<Rightarrow> frame_item list \<Rightarrow> new_frame list" where
  "stamped t0 k [] = []"
| "stamped t0 k (it # its) =
     \<lparr>nf_picture = picture (frm it),
      nf_pts = (case (pts (frm it), t0) of (Some t, Some b) \<Rightarrow> t - b | _ \<Rightarrow> k)\<rparr>
     # stamped t0 (k + 1) its"

text \<open>
  The events that are neither a status text nor a recording-status change: frames
  delivered, the \<open>stopped\<close> signal, and sleeps.
\<close>

fun loud :: "event \<Rightarrow> bool" where
  "loud (FrameReady q) = True"
| "loud Stopped = True"
| "loud (Sleep d) = True"
| "loud e = False"

definition loud_trace :: "video_worker \<Rightarrow> event list" where
  "loud_trace s = filter loud (trace s)"



text \<open>What the snapshot cache should hold: the picture delivered last.\<close>

definition cache_of :: "event list \<Rightarrow> image option" where
  "cache_of es = (if sink_frames es = [] then None else Some (last (sink_frames es)))"

definition cache_ok :: "video_worker \<Rightarrow> bool" where
  "cache_ok s = (last_qimage s = cache_of (trace s))"

text \<open>
  The states the worker can be in: the initial state, changed by controller commands,
  by frames decoded, by whole iterations of the reconnect loop, by the exit cleanup,
  and by \<open>start\<close> and \<open>stop\<close> setting the thread and the cancel flag.
\<close>

inductive reachable :: "av_env \<Rightarrow> video_worker \<Rightarrow> bool" for env :: av_env where
  reach_init: "reachable env init_worker"
| reach_command: "reachable env s \<Longrightarrow> reachable env (apply_command env c s)"
| reach_frames: "reachable env s \<Longrightarrow> reachable env (snd (decode_loop env info en items s))"
| reach_attempt: "reachable env s \<Longrightarrow> reachable env (snd (attempt_step env a s))"
| reach_finish: "reachable env s \<Longrightarrow> reachable env (finish env s)"
| reach_thread: "reachable env s \<Longrightarrow> reachable env (s\<lparr>thread := t, stop_flag := b\<rparr>)"

text \<open>
  A recording has been requested, nothing is open yet, and opening the output at the
  recorded path will succeed.
\<close>

definition materializable :: "av_env \<Rightarrow> stream_info \<Rightarrow> video_worker \<Rightarrow> bool" where
  "materializable env info s =
     (recording s \<and> output_container s = None \<and> output_stream s = None \<and>
      (case recording_path s of
         None \<Rightarrow> False
       | Some p \<Rightarrow> p \<noteq> [] \<and> open_output env p = None \<and>
                   add_stream env ''h264'' (rate_or_default (si_average_rate info)) = None))"

subsection \<open>Concrete inputs\<close>

text \<open>
  An environment in which every library call succeeds and the encoder holds back \<open>d\<close>
  frames, a camera stream, a frame without commands or failures, and the worker right
  after \<open>start_recording('out.mkv')\<close>.
\<close>

definition plain_env :: "nat \<Rightarrow> av_env" where
  "plain_env d =
     \<lparr>open_output = (\<lambda>p. None), add_stream = (\<lambda>c r. None), encoder_delay = d,
      close_ok = (\<lambda>p. True)\<rparr>"

definition cam_info :: stream_info where
  "cam_info = \<lparr>si_average_rate = Some 25, si_width = 640, si_height = 480\<rparr>"

definition plain_item :: "int option \<Rightarrow> nat \<Rightarrow> frame_item" where
  "plain_item t d =
     \<lparr>cmds = [], frm = \<lparr>pts = t, picture = \<lparr>img_w = 640, img_h = 480, img_data = d\<rparr>\<rparr>,
      conv_err = None, enc_err = None, mux_err = None\<rparr>"

definition requested :: video_worker where
  "requested = snd (start_recording ''out.mkv'' init_worker)"

definition ended_stream :: "command list \<Rightarrow> attempt" where
  "ended_stream cs =
     \<lparr>source = Video cam_info [] EndOfStream, end_cmds = [], flush_enc_err = False,
      flush_mux_err = None, sleep_cmds = cs\<rparr>"

definition no_codec_env :: av_env where
  "no_codec_env = (plain_env 0)\<lparr>add_stream := (\<lambda>c r. Some ''codec not found'')\<rparr>"

definition picture7 :: image where
  "picture7 = \<lparr>img_w = 640, img_h = 480, img_data = 7\<rparr>"

definition no_video :: attempt where
  "no_video =
     \<lparr>source = NoVideoStream, end_cmds = [], flush_enc_err = False, flush_mux_err = None,
      sleep_cmds = []\<rparr>"

definition open_timeout :: "command list \<Rightarrow> attempt" where
  "open_timeout cs =
     \<lparr>source = OpenError (AvError ''timeout''), end_cmds = [], flush_enc_err = False,
      flush_mux_err = None, sleep_cmds = cs\<rparr>"

definition one_frame :: "av_env \<Rightarrow> video_worker" where
  "one_frame env = snd (decode_loop env cam_info EndOfStream [plain_item (Some 0) 7] requested)"

text \<open>
  The worker after a first frame whose initialisation failed in \<open>add_stream\<close>, and
  after a second \<open>start_recording\<close>.
\<close>

definition stale_restart :: video_worker where
  "stale_restart = snd (start_recording ''second.mkv'' (one_frame no_codec_env))"

section \<open>Properties\<close>

subsection \<open>Helper lemmas\<close>

lemmas eval_defs = requested_def start_recording_def init_worker_def emit_def plain_env_def
  plain_item_def cam_info_def record_frame_def materialize_def write_frame_def
  rate_or_default_def output_pts_def encode_frame_def mux_packets_def deliver_def
  submitted_frames_def recording_error_def init_failed_def stop_recording_def
  close_container_def finish_def attempt_step_def backoff_def flush_encoder_def
  encode_flush_def apply_command_def Let_def

lemma sink_frames_append: "sink_frames (xs @ ys) = sink_frames xs @ sink_frames ys"
  by (induction xs rule: sink_frames.induct) simp_all

lemma controller_keep:
  "recording s \<Longrightarrow> CStopRecording \<notin> set cs \<Longrightarrow>
   controller env cs s = s\<lparr>stop_flag := stop_flag s \<or> CSetStop \<in> set cs\<rparr>"
proof (induction cs arbitrary: s)
  case Nil
  then show ?case by simp
next
  case (Cons c cs)
  then show ?case
    by (cases c) (auto simp: apply_command_def start_recording_def)
qed

lemma write_frame_fields:
  "recording (write_frame it c st s) = recording s"
  "output_container (write_frame it c st s) \<noteq> None \<or> output_container (write_frame it c st s) = output_container s"
  "recording_start_pts (write_frame it c st s) = recording_start_pts s"
  "stop_flag (write_frame it c st s) = stop_flag s"
  "last_qimage (write_frame it c st s) = last_qimage s"
  "files (write_frame it c st s) = files s"
  "sink_frames (trace (write_frame it c st s)) = sink_frames (trace s)"
  "frame_count (write_frame it c st s) = frame_count s + (if conv_err it = None then 1 else 0)"
  by (auto simp: write_frame_def recording_error_def emit_def encode_frame_def mux_packets_def
        sink_frames_append Let_def split: option.splits prod.splits)

lemma write_frame_submitted:
  "output_stream s = Some st \<Longrightarrow>
   submitted_frames (write_frame it c st s) =
     submitted_frames s @ (if conv_err it = None then stamped (recording_start_pts s) (frame_count s) [it] else [])"
  by (auto simp: write_frame_def recording_error_def emit_def encode_frame_def mux_packets_def
        submitted_frames_def output_pts_def Let_def split: option.splits prod.splits)

lemma write_frame_active:
  "output_stream s = Some st \<Longrightarrow> output_container s = Some c \<Longrightarrow> recording s \<Longrightarrow>
   session_active (write_frame it c st s)"
  by (auto simp: write_frame_def recording_error_def emit_def encode_frame_def mux_packets_def
        session_active_def Let_def split: option.splits prod.splits)

lemma record_frame_active:
  "recording s \<Longrightarrow> output_container s = Some c \<Longrightarrow> output_stream s = Some st \<Longrightarrow>
   record_frame env info it s = write_frame it c st s"
  by (simp add: record_frame_def split: option.splits)

lemma deliver_fields:
  "recording (deliver f s) = recording s"
  "output_container (deliver f s) = output_container s"
  "output_stream (deliver f s) = output_stream s"
  "recording_start_pts (deliver f s) = recording_start_pts s"
  "frame_count (deliver f s) = frame_count s"
  "stop_flag (deliver f s) = stop_flag s"
  "submitted_frames (deliver f s) = submitted_frames s"
  "session_active (deliver f s) = session_active s"
  "sink_frames (trace (deliver f s)) = sink_frames (trace s) @ [picture f]"
  "last_qimage (deliver f s) = Some (picture f)"
  by (simp_all add: deliver_def emit_def submitted_frames_def session_active_def sink_frames_append)

lemma decode_loop_active:
  assumes "session_active s"
    and "\<forall>it\<in>set items. CStopRecording \<notin> set (cmds it)"
  shows "\<exists>n\<le>length items.
           sink_frames (trace (snd (decode_loop env info en items s)))
             = sink_frames (trace s) @ map (picture \<circ> frm) (take n items) \<and>
           submitted_frames (snd (decode_loop env info en items s))
             = submitted_frames s @ stamped (recording_start_pts s) (frame_count s) (take n items) \<and>
           ((\<not> stop_flag s \<and> (\<forall>it\<in>set items. CSetStop \<notin> set (cmds it) \<and> conv_err it = None))
              \<longrightarrow> n = length items)"
  using assms
proof (induction items arbitrary: s)
  case Nil
  then show ?case by (simp split: ending.splits)
next
  case (Cons it its)
  from Cons.prems(1) obtain c st where act: "recording s" "output_container s = Some c" "output_stream s = Some st"
    by (auto simp: session_active_def)
  have nostop: "CStopRecording \<notin> set (cmds it)" using Cons.prems(2) by simp
  define s1 where "s1 = controller env (cmds it) s"
  have s1: "s1 = s\<lparr>stop_flag := stop_flag s \<or> CSetStop \<in> set (cmds it)\<rparr>"
    unfolding s1_def using controller_keep [OF act(1) nostop] .
  show ?case
  proof (cases "stop_flag s1")
    case True
    then have "decode_loop env info en (it # its) s = (None, s1)"
      by (simp add: s1_def)
    moreover have "stop_flag s \<or> CSetStop \<in> set (cmds it)" using True s1 by simp
    ultimately show ?thesis
      by (intro exI [of _ 0]) (auto simp add: s1 submitted_frames_def simp del: decode_loop.simps)
  next
    case False
    define s2 where "s2 = write_frame it c st s1"
    have rf: "record_frame env info it s1 = s2"
      unfolding s2_def using act by (simp add: s1 record_frame_active)
    have sub2: "submitted_frames s2 = submitted_frames s @
        (if conv_err it = None then stamped (recording_start_pts s) (frame_count s) [it] else [])"
      unfolding s2_def using write_frame_submitted [of s1 st it c] act
      by (simp add: s1 submitted_frames_def)
    have sink2: "sink_frames (trace s2) = sink_frames (trace s)"
      unfolding s2_def by (simp add: write_frame_fields s1)
    show ?thesis
    proof (cases "conv_err it")
      case (Some e)
      then have "decode_loop env info en (it # its) s = (Some e, s2)"
        using False rf by (simp add: s1_def [symmetric])
      then show ?thesis
        using Some sub2 sink2 by (intro exI [of _ 0]) (auto simp del: decode_loop.simps)
    next
      case None
      define s3 where "s3 = deliver (frm it) s2"
      have dl: "decode_loop env info en (it # its) s = decode_loop env info en its s3"
        using False rf None by (simp add: s1_def [symmetric] s3_def)
      have act3: "session_active s3"
        unfolding s3_def s2_def using write_frame_active [of s1 st c it] act
        by (simp add: deliver_fields s1)
      have f3: "recording_start_pts s3 = recording_start_pts s" "frame_count s3 = frame_count s + 1"
        "stop_flag s3 = stop_flag s1"
        unfolding s3_def s2_def using None by (simp_all add: deliver_fields write_frame_fields s1)
      have "\<forall>it\<in>set its. CStopRecording \<notin> set (cmds it)"
        using Cons.prems(2) by simp
      from Cons.IH [OF act3 this]
      obtain n where n: "n \<le> length its"
        "sink_frames (trace (snd (decode_loop env info en its s3)))
             = sink_frames (trace s3) @ map (picture \<circ> frm) (take n its)"
        "submitted_frames (snd (decode_loop env info en its s3))
             = submitted_frames s3 @ stamped (recording_start_pts s3) (frame_count s3) (take n its)"
        "(\<not> stop_flag s3 \<and> (\<forall>it\<in>set its. CSetStop \<notin> set (cmds it) \<and> conv_err it = None))
              \<longrightarrow> n = length its"
        by blast
      have sink3: "sink_frames (trace s3) = sink_frames (trace s) @ [picture (frm it)]"
        unfolding s3_def by (simp add: deliver_fields sink2)
      have sub3: "submitted_frames s3 = submitted_frames s @ stamped (recording_start_pts s) (frame_count s) [it]"
        unfolding s3_def using sub2 None by (simp add: deliver_fields)
      show ?thesis
        using n False
        by (intro exI [of _ "Suc n"]) (auto simp add: dl sink3 sub3 f3 s1 simp del: decode_loop.simps)
    qed
  qed
qed

lemma stamped_pictures: "map nf_picture (stamped t0 k its) = map (picture \<circ> frm) its"
  by (induction its arbitrary: k) simp_all

lemma stamped_absent:
  "\<forall>it\<in>set its. pts (frm it) = None \<Longrightarrow>
   map nf_pts (stamped t0 k its) = map (\<lambda>i. k + int i) [0..<length its]"
proof (induction its arbitrary: k)
  case Nil
  then show ?case by simp
next
  case (Cons it its)
  have "[0..<length (it # its)] = 0 # map Suc [0..<length its]"
    by (simp add: upt_conv_Cons map_Suc_upt del: upt_Suc)
  moreover have "map nf_pts (stamped t0 (k + 1) its) = map (\<lambda>i. k + 1 + int i) [0..<length its]"
    using Cons by simp
  ultimately show ?case using Cons.prems by (simp add: comp_def add.assoc del: upt_Suc)
qed

lemma stamped_present:
  "\<forall>it\<in>set its. pts (frm it) \<noteq> None \<Longrightarrow>
   map nf_pts (stamped (Some b) k its) = map (\<lambda>it. the (pts (frm it)) - b) its"
  by (induction its arbitrary: k) auto

lemma sorted_shift: "sorted (map f xs) \<Longrightarrow> sorted (map (\<lambda>x. f x - (b::int)) xs)"
  by (induction xs) auto

lemma sorted_count: "sorted (map (\<lambda>i. (k::int) + int i) [0..<n])"
  by (induction n) (auto simp: sorted_append)

lemma materialize_ok:
  assumes "materializable env info s" "recording_path s = Some p"
  shows "session_active (materialize env info f p s)"
    and "submitted_frames (materialize env info f p s) = []"
    and "recording_start_pts (materialize env info f p s) = pts f"
    and "frame_count (materialize env info f p s) = 0"
    and "trace (materialize env info f p s) = trace s"
    and "stop_flag (materialize env info f p s) = stop_flag s"
  using assms
  by (simp_all add: materializable_def materialize_def session_active_def submitted_frames_def Let_def)

lemma record_frame_fresh:
  assumes "materializable env info s" "recording_path s = Some p"
  shows "record_frame env info it s = record_frame env info it (materialize env info (frm it) p s)"
  using assms
  by (simp add: materializable_def materialize_def record_frame_def Let_def)

lemma controller_materialize:
  assumes "materializable env info s" "recording_path s = Some p" "CStopRecording \<notin> set cs"
  shows "controller env cs (materialize env info f p s) = materialize env info f p (controller env cs s)"
proof -
  have r: "recording s" using assms(1) by (simp add: materializable_def)
  have r': "recording (materialize env info f p s)"
    using materialize_ok(1) [OF assms(1,2)] by (simp add: session_active_def)
  have "controller env cs (materialize env info f p s)
          = (materialize env info f p s)\<lparr>stop_flag := stop_flag s \<or> CSetStop \<in> set cs\<rparr>"
    using controller_keep [OF r' assms(3), of env] materialize_ok(6) [OF assms(1,2), of f]
    by simp
  also have "\<dots> = materialize env info f p (s\<lparr>stop_flag := stop_flag s \<or> CSetStop \<in> set cs\<rparr>)"
    using assms(1,2) by (simp add: materializable_def materialize_def Let_def)
  finally show ?thesis
    by (simp only: controller_keep [OF r assms(3), of env])
qed

lemma decode_loop_fresh:
  assumes "materializable env info s" "recording_path s = Some p" "CStopRecording \<notin> set (cmds it)"
    "\<not> stop_flag (controller env (cmds it) s)"
  shows "decode_loop env info en (it # its) s
           = decode_loop env info en (it # its) (materialize env info (frm it) p s)"
proof -
  have r: "recording s" using assms(1) by (simp add: materializable_def)
  define s1 where "s1 = controller env (cmds it) s"
  have s1: "s1 = s\<lparr>stop_flag := stop_flag s \<or> CSetStop \<in> set (cmds it)\<rparr>"
    unfolding s1_def using controller_keep [OF r assms(3)] .
  have m1: "materializable env info s1" "recording_path s1 = Some p"
    using assms(1,2) by (simp_all add: s1 materializable_def)
  have c: "controller env (cmds it) (materialize env info (frm it) p s) = materialize env info (frm it) p s1"
    unfolding s1_def by (rule controller_materialize [OF assms(1,2,3)])
  have st: "stop_flag (materialize env info (frm it) p s1) = stop_flag s1"
    by (rule materialize_ok(6) [OF m1])
  show ?thesis
    using assms(4) record_frame_fresh [OF m1, of it]
    by (simp add: c st s1_def [symmetric])
qed

lemma requested_materializable: "materializable (plain_env d) cam_info requested"
  by (simp add: materializable_def requested_def start_recording_def init_worker_def emit_def
      plain_env_def)

lemma decode_loop_requested:
  assumes "materializable env info s"
    and "\<forall>it\<in>set items. CStopRecording \<notin> set (cmds it)"
  shows "\<exists>n\<le>length items.
           sink_frames (trace (snd (decode_loop env info en items s)))
             = sink_frames (trace s) @ map (picture \<circ> frm) (take n items) \<and>
           submitted_frames (snd (decode_loop env info en items s))
             = stamped (pts (frm (hd items))) 0 (take n items) \<and>
           ((\<not> stop_flag s \<and> (\<forall>it\<in>set items. CSetStop \<notin> set (cmds it) \<and> conv_err it = None))
              \<longrightarrow> n = length items)"
proof (cases items)
  case Nil
  then show ?thesis using assms(1)
    by (simp add: materializable_def submitted_frames_def split: ending.splits)
next
  case (Cons it its)
  from assms(1) obtain p where p: "recording_path s = Some p"
    by (auto simp: materializable_def split: option.splits)
  have r: "recording s" and sub: "submitted_frames s = []"
    using assms(1) by (simp_all add: materializable_def submitted_frames_def)
  have nostop: "CStopRecording \<notin> set (cmds it)" using assms(2) Cons by simp
  define s1 where "s1 = controller env (cmds it) s"
  have s1: "s1 = s\<lparr>stop_flag := stop_flag s \<or> CSetStop \<in> set (cmds it)\<rparr>"
    unfolding s1_def using controller_keep [OF r nostop] .
  show ?thesis
  proof (cases "stop_flag s1")
    case True
    then have "decode_loop env info en (it # its) s = (None, s1)"
      by (simp add: s1_def)
    moreover have "stop_flag s \<or> CSetStop \<in> set (cmds it)" using True s1 by simp
    ultimately show ?thesis using sub unfolding Cons
      by (intro exI [of _ 0]) (auto simp add: s1 submitted_frames_def simp del: decode_loop.simps)
  next
    case False
    define sm where "sm = materialize env info (frm it) p s"
    have dl: "decode_loop env info en items s = decode_loop env info en items sm"
      unfolding Cons sm_def using decode_loop_fresh [OF assms(1) p nostop] False
      by (simp add: s1_def del: decode_loop.simps)
    have m: "session_active sm" "submitted_frames sm = []" "recording_start_pts sm = pts (frm (hd items))"
      "frame_count sm = 0" "trace sm = trace s" "stop_flag sm = stop_flag s"
      unfolding sm_def using materialize_ok [OF assms(1) p, of "frm it"] Cons by simp_all
    from decode_loop_active [OF m(1) assms(2), of env info en]
    show ?thesis by (simp add: dl m)
  qed
qed

subsection \<open>What the recording steps leave alone\<close>

lemma loud_emit: "loud_trace (emit e s) = loud_trace s @ (if loud e then [e] else [])"
  by (simp add: loud_trace_def emit_def)

lemma stop_recording_quiet:
  "loud_trace (stop_recording env s) = loud_trace s"
  "last_qimage (stop_recording env s) = last_qimage s"
  "stop_flag (stop_recording env s) = stop_flag s"
  by (simp_all add: stop_recording_def close_container_def loud_trace_def emit_def Let_def
      split: option.splits)

lemma apply_command_quiet:
  "loud_trace (apply_command env c s) = loud_trace s"
  "last_qimage (apply_command env c s) = last_qimage s"
  "stop_flag s \<Longrightarrow> stop_flag (apply_command env c s)"
proof -
  show "loud_trace (apply_command env c s) = loud_trace s"
    by (cases c) (simp_all add: apply_command_def stop_recording_quiet start_recording_def loud_emit,
        simp_all add: loud_trace_def)
  show "last_qimage (apply_command env c s) = last_qimage s"
    by (cases c) (simp_all add: apply_command_def stop_recording_quiet start_recording_def emit_def)
  show "stop_flag s \<Longrightarrow> stop_flag (apply_command env c s)"
    by (cases c) (simp_all add: apply_command_def stop_recording_quiet start_recording_def emit_def)
qed

lemma controller_quiet:
  "loud_trace (controller env cs s) = loud_trace s"
  "last_qimage (controller env cs s) = last_qimage s"
  by (induction cs arbitrary: s) (simp_all add: apply_command_quiet)



lemma materialize_quiet:
  "loud_trace (materialize env info f p s) = loud_trace s"
  "last_qimage (materialize env info f p s) = last_qimage s"
  by (simp_all add: materialize_def init_failed_def loud_trace_def emit_def Let_def
      split: option.splits)

lemma write_frame_quiet:
  "loud_trace (write_frame it c st s) = loud_trace s"
  by (auto simp: write_frame_def recording_error_def emit_def encode_frame_def mux_packets_def
        loud_trace_def Let_def split: option.splits prod.splits)

lemma record_frame_quiet:
  "loud_trace (record_frame env info it s) = loud_trace s"
  "last_qimage (record_frame env info it s) = last_qimage s"
  by (simp_all add: record_frame_def materialize_quiet write_frame_quiet write_frame_fields
      Let_def split: option.splits)

lemma flush_encoder_quiet:
  "loud_trace (flush_encoder a s) = loud_trace s"
  "last_qimage (flush_encoder a s) = last_qimage s"
  "stop_flag (flush_encoder a s) = stop_flag s"
  by (simp_all add: flush_encoder_def loud_trace_def encode_flush_def Let_def
      split: option.splits prod.splits)

lemma sink_frames_loud: "sink_frames (filter loud es) = sink_frames es"
  by (induction es rule: sink_frames.induct) simp_all



lemma cache_of_loud: "cache_of es = cache_of (filter loud es)"
  by (simp add: cache_of_def sink_frames_loud)

lemma cache_ok_quiet:
  "cache_ok s \<Longrightarrow> loud_trace s' = loud_trace s \<Longrightarrow> last_qimage s' = last_qimage s \<Longrightarrow> cache_ok s'"
proof -
  assume a: "cache_ok s" "loud_trace s' = loud_trace s" "last_qimage s' = last_qimage s"
  have "cache_of (trace s') = cache_of (filter loud (trace s'))" by (rule cache_of_loud)
  also have "\<dots> = cache_of (filter loud (trace s))" using a(2) by (simp add: loud_trace_def)
  also have "\<dots> = cache_of (trace s)" by (rule cache_of_loud [symmetric])
  finally show ?thesis using a(1,3) by (simp add: cache_ok_def)
qed


lemma decode_loop_cache: "cache_ok s \<Longrightarrow> cache_ok (snd (decode_loop env info en items s))"
proof (induction items arbitrary: s)
  case Nil
  then show ?case by (simp split: ending.splits)
next
  case (Cons it its)
  define s1 where "s1 = controller env (cmds it) s"
  define s2 where "s2 = record_frame env info it s1"
  have c1: "cache_ok s1"
    unfolding s1_def by (rule cache_ok_quiet [OF Cons.prems]) (simp_all add: controller_quiet)
  have c2: "cache_ok s2"
    unfolding s2_def by (rule cache_ok_quiet [OF c1]) (simp_all add: record_frame_quiet)
  have c3: "cache_ok (deliver (frm it) s2)"
    by (simp add: cache_ok_def cache_of_def deliver_def emit_def sink_frames_append)
  show ?case
    using c1 c2 Cons.IH [OF c3]
    by (simp add: s1_def [symmetric] s2_def [symmetric] Let_def split: option.splits)
qed


lemma cache_ok_emit: "sink_frames [e] = [] \<Longrightarrow> cache_ok s \<Longrightarrow> cache_ok (emit e s)"
  by (simp add: cache_ok_def cache_of_def emit_def sink_frames_append)

lemma cache_ok_controller: "cache_ok s \<Longrightarrow> cache_ok (controller env cs s)"
  by (rule cache_ok_quiet) (simp_all add: controller_quiet)

lemma cache_ok_backoff: "cache_ok s \<Longrightarrow> cache_ok (snd (backoff env a m s))"
  by (simp add: backoff_def cache_ok_controller cache_ok_emit)

lemma cache_ok_flush: "cache_ok s \<Longrightarrow> cache_ok (flush_encoder a s)"
  by (rule cache_ok_quiet) (simp_all add: flush_encoder_quiet)

lemma decode_loop_cache_pair:
  "decode_loop env info en items s = (r, s') \<Longrightarrow> cache_ok s \<Longrightarrow> cache_ok s'"
  using decode_loop_cache [of s env info en items] by simp

lemma cache_ok_attempt: "cache_ok s \<Longrightarrow> cache_ok (snd (attempt_step env a s))"
proof -
  assume c: "cache_ok s"
  show ?thesis
  proof (cases "source a")
    case (OpenError e)
    then show ?thesis
      using c by (simp add: attempt_step_def cache_ok_backoff cache_ok_controller cache_ok_emit)
  next
    case NoVideoStream
    then show ?thesis
      using c by (simp add: attempt_step_def cache_ok_emit)
  next
    case (Video info items en)
    obtain r s2 where d: "decode_loop env info en items
        (emit (Status ''Playing'') (emit (Status connecting_msg) s)) = (r, s2)"
      by (cases "decode_loop env info en items
        (emit (Status ''Playing'') (emit (Status connecting_msg) s))")
    have c2: "cache_ok s2"
      by (rule decode_loop_cache_pair [OF d]) (simp add: cache_ok_emit c)
    show ?thesis
      using Video c2 d
      by (cases r)
         (simp_all add: attempt_step_def cache_ok_backoff cache_ok_controller cache_ok_flush)
  qed
qed

lemma cache_ok_finish: "cache_ok s \<Longrightarrow> cache_ok (finish env s)"
proof -
  assume c: "cache_ok s"
  have "cache_ok (stop_recording env s)"
    by (rule cache_ok_quiet [OF c]) (simp_all add: stop_recording_quiet)
  then show ?thesis by (simp add: finish_def cache_ok_emit)
qed

lemma reachable_cache_ok: "reachable env s \<Longrightarrow> cache_ok s"
proof (induction rule: reachable.induct)
  case reach_init
  then show ?case by (simp add: cache_ok_def cache_of_def init_worker_def)
next
  case (reach_command s c)
  show ?case by (rule cache_ok_quiet [OF reach_command.IH]) (simp_all add: apply_command_quiet)
next
  case (reach_frames s info en items)
  then show ?case by (simp add: decode_loop_cache)
next
  case (reach_attempt s a)
  then show ?case by (simp add: cache_ok_attempt)
next
  case (reach_finish s)
  then show ?case by (simp add: cache_ok_finish)
next
  case (reach_thread s t b)
  then show ?case by (simp add: cache_ok_def)
qed

subsection \<open>Frames offered to the recording session\<close>

text \<open>
  In one decode loop that starts with a recording session that has its container and
  its stream, or that is requested and about to be opened, and during which the
  controller does not stop the recording, the pictures delivered to the frame sink
  and the pictures handed to the encoder are one and the same list: those of the
  first \<open>n\<close> decoded frames, in decode order. A frame whose \<open>encode\<close> or \<open>mux\<close>
  call raises is still delivered.
\<close>

lemma sink_frames_offered_in_order:
  assumes "session_active s \<or> materializable env info s"
    and "\<forall>it\<in>set items. CStopRecording \<notin> set (cmds it)"
  shows "\<exists>n\<le>length items.
           sink_frames (trace (snd (decode_loop env info en items s)))
             = sink_frames (trace s) @ map (picture \<circ> frm) (take n items) \<and>
           map nf_picture (submitted_frames (snd (decode_loop env info en items s)))
             = map nf_picture (submitted_frames s) @ map (picture \<circ> frm) (take n items)"
proof -
  from assms(1) show ?thesis
  proof
    assume a: "session_active s"
    from decode_loop_active [OF a assms(2), of env info en]
    obtain n where "n \<le> length items"
      "sink_frames (trace (snd (decode_loop env info en items s)))
             = sink_frames (trace s) @ map (picture \<circ> frm) (take n items)"
      "submitted_frames (snd (decode_loop env info en items s))
             = submitted_frames s @ stamped (recording_start_pts s) (frame_count s) (take n items)"
      by blast
    then show ?thesis
      by (intro exI [of _ n]) (simp add: stamped_pictures)
  next
    assume a: "materializable env info s"
    then have sub: "submitted_frames s = []"
      by (simp add: materializable_def submitted_frames_def)
    from decode_loop_requested [OF a assms(2), of en]
    obtain n where "n \<le> length items"
      "sink_frames (trace (snd (decode_loop env info en items s)))
             = sink_frames (trace s) @ map (picture \<circ> frm) (take n items)"
      "submitted_frames (snd (decode_loop env info en items s))
             = stamped (pts (frm (hd items))) 0 (take n items)"
      by blast
    then show ?thesis
      by (intro exI [of _ n]) (simp add: stamped_pictures sub)
  qed
qed

lemma sink_frames_offered_in_order_example:
  "materializable (plain_env 1) cam_info requested \<and>
   sink_frames (trace (snd (decode_loop (plain_env 1) cam_info EndOfStream
      [plain_item (Some 10) 1, (plain_item (Some 20) 2)\<lparr>enc_err := Some ''busy''\<rparr>] requested)))
     = [\<lparr>img_w = 640, img_h = 480, img_data = 1\<rparr>, \<lparr>img_w = 640, img_h = 480, img_data = 2\<rparr>] \<and>
   map nf_picture (submitted_frames (snd (decode_loop (plain_env 1) cam_info EndOfStream
      [plain_item (Some 10) 1, (plain_item (Some 20) 2)\<lparr>enc_err := Some ''busy''\<rparr>] requested)))
     = [\<lparr>img_w = 640, img_h = 480, img_data = 1\<rparr>, \<lparr>img_w = 640, img_h = 480, img_data = 2\<rparr>]"
proof -
  have h1: "session_active requested \<or> materializable (plain_env 1) cam_info requested"
    by (simp add: requested_materializable)
  have h2: "\<forall>it\<in>set [plain_item (Some 10) 1, (plain_item (Some 20) 2)\<lparr>enc_err := Some ''busy''\<rparr>].
              CStopRecording \<notin> set (cmds it)"
    by (simp add: plain_item_def)
  show ?thesis
    using sink_frames_offered_in_order [OF h1 h2, of EndOfStream]
    by (simp add: requested_def start_recording_def init_worker_def emit_def plain_env_def
        plain_item_def cam_info_def record_frame_def materialize_def write_frame_def
        rate_or_default_def output_pts_def encode_frame_def mux_packets_def deliver_def
        submitted_frames_def recording_error_def materializable_def Let_def)
qed

subsection \<open>Output timestamps\<close>

text \<open>
  C2 (as the code has it): a recording is requested and can be opened, and \<open>N\<close> frames
  are decoded with no stop and no failing conversion. If every frame has a source
  timestamp, the timestamp stored for frame \<open>i\<close> is that of frame \<open>i\<close> minus that of
  frame \<open>0\<close>; if none has, it is \<open>i\<close>. The stored timestamps are non-decreasing when
  the source timestamps are absent, and when they are present and themselves
  non-decreasing.
\<close>

theorem rebased_timestamps:
  assumes "materializable env info s" and "\<not> stop_flag s"
    and "\<forall>it\<in>set items. CStopRecording \<notin> set (cmds it) \<and> CSetStop \<notin> set (cmds it) \<and> conv_err it = None"
  shows "((\<forall>it\<in>set items. pts (frm it) \<noteq> None) \<longrightarrow>
            map nf_pts (submitted_frames (snd (decode_loop env info en items s)))
              = map (\<lambda>it. the (pts (frm it)) - the (pts (frm (hd items)))) items) \<and>
         ((\<forall>it\<in>set items. pts (frm it) = None) \<longrightarrow>
            map nf_pts (submitted_frames (snd (decode_loop env info en items s)))
              = map int [0..<length items]) \<and>
         ((\<forall>it\<in>set items. pts (frm it) = None) \<or>
          (\<forall>it\<in>set items. pts (frm it) \<noteq> None) \<and> sorted (map (\<lambda>it. the (pts (frm it))) items) \<longrightarrow>
            sorted (map nf_pts (submitted_frames (snd (decode_loop env info en items s)))))"
proof -
  have "\<forall>it\<in>set items. CStopRecording \<notin> set (cmds it)" using assms(3) by simp
  from decode_loop_requested [OF assms(1) this, of en] assms(2,3)
  have sub: "submitted_frames (snd (decode_loop env info en items s))
               = stamped (pts (frm (hd items))) 0 items"
    by auto
  have present: "map nf_pts (stamped (pts (frm (hd items))) 0 items)
                   = map (\<lambda>it. the (pts (frm it)) - the (pts (frm (hd items)))) items"
    if h: "\<forall>it\<in>set items. pts (frm it) \<noteq> None"
  proof (cases items)
    case Nil
    then show ?thesis by simp
  next
    case (Cons it its)
    with h obtain b where b: "pts (frm (hd items)) = Some b" by auto
    show ?thesis using stamped_present [OF h, of b 0] by (simp add: b)
  qed
  have absent: "map nf_pts (stamped (pts (frm (hd items))) 0 items) = map int [0..<length items]"
    if "\<forall>it\<in>set items. pts (frm it) = None"
    using stamped_absent [OF that, of "pts (frm (hd items))" 0] by simp
  have s1: "sorted (map nf_pts (stamped (pts (frm (hd items))) 0 items))"
    if "\<forall>it\<in>set items. pts (frm it) = None"
    using stamped_absent [OF that, of "pts (frm (hd items))" 0] sorted_count [of 0 "length items"]
    by simp
  have s2: "sorted (map nf_pts (stamped (pts (frm (hd items))) 0 items))"
    if "\<forall>it\<in>set items. pts (frm it) \<noteq> None" "sorted (map (\<lambda>it. the (pts (frm it))) items)"
    using present [OF that(1)] sorted_shift [OF that(2)] by simp
  show ?thesis
    unfolding sub
  proof (intro conjI impI)
    assume "\<forall>it\<in>set items. pts (frm it) \<noteq> None"
    then show "map nf_pts (stamped (pts (frm (hd items))) 0 items)
                 = map (\<lambda>it. the (pts (frm it)) - the (pts (frm (hd items)))) items"
      by (rule present)
  next
    assume "\<forall>it\<in>set items. pts (frm it) = None"
    then show "map nf_pts (stamped (pts (frm (hd items))) 0 items) = map int [0..<length items]"
      by (rule absent)
  next
    assume "(\<forall>it\<in>set items. pts (frm it) = None) \<or>
            (\<forall>it\<in>set items. pts (frm it) \<noteq> None) \<and> sorted (map (\<lambda>it. the (pts (frm it))) items)"
    then show "sorted (map nf_pts (stamped (pts (frm (hd items))) 0 items))"
      using s1 s2 by blast
  qed
qed

theorem rebased_timestamps_witness:
  "materializable (plain_env 1) cam_info requested \<and> \<not> stop_flag requested \<and>
   map nf_pts (submitted_frames (snd (decode_loop (plain_env 1) cam_info EndOfStream
      [plain_item (Some 100) 1, plain_item (Some 140) 2, plain_item (Some 180) 3] requested)))
     = [0, 40, 80] \<and>
   map nf_pts (submitted_frames (snd (decode_loop (plain_env 1) cam_info EndOfStream
      [plain_item None 1, plain_item None 2, plain_item None 3] requested)))
     = [0, 1, 2]"
proof -
  have h1: "materializable (plain_env 1) cam_info requested"
    by (rule requested_materializable)
  have h2: "\<not> stop_flag requested"
    by (simp add: requested_def start_recording_def init_worker_def emit_def)
  have h3: "\<forall>it\<in>set [plain_item (Some 100) 1, plain_item (Some 140) 2, plain_item (Some 180) 3].
              CStopRecording \<notin> set (cmds it) \<and> CSetStop \<notin> set (cmds it) \<and> conv_err it = None"
    by (simp add: plain_item_def)
  have h4: "\<forall>it\<in>set [plain_item None 1, plain_item None 2, plain_item None 3].
              CStopRecording \<notin> set (cmds it) \<and> CSetStop \<notin> set (cmds it) \<and> conv_err it = None"
    by (simp add: plain_item_def)
  have a: "map nf_pts (submitted_frames (snd (decode_loop (plain_env 1) cam_info EndOfStream
      [plain_item (Some 100) 1, plain_item (Some 140) 2, plain_item (Some 180) 3] requested)))
     = [0, 40, 80]"
    using rebased_timestamps [OF h1 h2 h3, of EndOfStream] by (simp add: plain_item_def)
  have b: "map nf_pts (submitted_frames (snd (decode_loop (plain_env 1) cam_info EndOfStream
      [plain_item None 1, plain_item None 2, plain_item None 3] requested)))
     = [0, 1, 2]"
    using rebased_timestamps [OF h1 h2 h4, of EndOfStream]
    by (simp add: plain_item_def upt_conv_Cons del: upt_Suc)
  show ?thesis using h1 h2 a b by simp
qed

text \<open>
  The claim as written also promises non-decreasing stored timestamps whenever source
  timestamps are present. Two frames with the source timestamps 10 and 5 are stored
  with 0 and -5.
\<close>

theorem rebased_timestamps_counterexample:
  "map nf_pts (submitted_frames (snd (decode_loop (plain_env 0) cam_info EndOfStream
      [plain_item (Some 10) 1, plain_item (Some 5) 2] requested))) = [0, - 5] \<and>
   \<not> sorted (map nf_pts (submitted_frames (snd (decode_loop (plain_env 0) cam_info EndOfStream
      [plain_item (Some 10) 1, plain_item (Some 5) 2] requested))))"
  by (simp add: requested_def start_recording_def init_worker_def emit_def plain_env_def
      plain_item_def cam_info_def record_frame_def materialize_def write_frame_def
      rate_or_default_def output_pts_def encode_frame_def mux_packets_def deliver_def
      submitted_frames_def Let_def)

subsection \<open>Starting and stopping a recording\<close>

text \<open>
  C6: a second \<open>start_recording\<close> while a recording is active returns \<open>False\<close> and
  leaves the whole worker state as it was: no new output resource, no signal.
\<close>

theorem start_recording_twice_rejected:
  "recording s \<Longrightarrow> start_recording path s = (False, s)"
  by (simp add: start_recording_def)

theorem start_recording_twice_rejected_witness:
  "recording (snd (start_recording ''a.mkv'' init_worker)) \<and>
   start_recording ''b.mkv'' (snd (start_recording ''a.mkv'' init_worker))
     = (False, snd (start_recording ''a.mkv'' init_worker))"
proof -
  have r: "recording (snd (start_recording ''a.mkv'' init_worker))"
    by (simp add: start_recording_def init_worker_def emit_def)
  show ?thesis using r start_recording_twice_rejected [OF r, of "''b.mkv''"] by simp
qed

text \<open>
  C7: \<open>stop_recording\<close> with no recording active returns the worker state as it
  was: the flag, the output resources, the recorded path and the trace of signals are
  all unchanged.
\<close>

theorem stop_recording_idle_noop: "\<not> recording s \<Longrightarrow> stop_recording env s = s"
  by (simp add: stop_recording_def)

theorem stop_recording_idle_noop_witness:
  "\<not> recording init_worker \<and> stop_recording (plain_env 0) init_worker = init_worker"
proof -
  have h: "\<not> recording init_worker" by (simp add: init_worker_def)
  show ?thesis using h stop_recording_idle_noop [OF h, of "plain_env 0"] by simp
qed

subsection \<open>Stopping a worker that is not running\<close>

text \<open>
  C10: \<open>stop()\<close> on a worker whose thread is absent or no longer alive only resets
  \<open>self._thread\<close>. The cancel flag is not set, the join is not entered (the result
  does not depend on \<open>joined\<close>), no signal is emitted, and the recording flag, the
  output resources and the last frame are unchanged.
\<close>

theorem stop_not_running_noop:
  assumes "thread s \<noteq> Some True"
  shows "stop joined s = s\<lparr>thread := None\<rparr> \<and>
         stop_flag (stop joined s) = stop_flag s \<and>
         trace (stop joined s) = trace s \<and>
         recording (stop joined s) = recording s \<and>
         output_container (stop joined s) = output_container s \<and>
         output_stream (stop joined s) = output_stream s \<and>
         last_qimage (stop joined s) = last_qimage s"
  using assms by (simp add: stop_def)

theorem stop_not_running_noop_witness:
  "thread (init_worker\<lparr>thread := Some False\<rparr>) \<noteq> Some True \<and>
   stop (emit Stopped) (init_worker\<lparr>thread := Some False\<rparr>) = init_worker \<and>
   stop (emit Stopped) init_worker = init_worker"
proof -
  have h1: "thread (init_worker\<lparr>thread := Some False\<rparr>) \<noteq> Some True" by simp
  have h2: "thread init_worker \<noteq> Some True" by (simp add: init_worker_def)
  show ?thesis
    using stop_not_running_noop [OF h1, of "emit Stopped"] stop_not_running_noop [OF h2, of "emit Stopped"]
    by (simp add: init_worker_def)
qed

subsection \<open>Snapshots\<close>

text \<open>
  C9: in every state the worker can reach, \<open>save_snapshot\<close> succeeds exactly when
  at least one frame has been delivered and writing the picture delivered last
  succeeds; it fails when no frame has been delivered yet or when the write fails. Its
  result depends on the cached frame alone.
\<close>

theorem save_snapshot_result:
  assumes "reachable env s"
  shows "save_snapshot save path s
           = (sink_frames (trace s) \<noteq> [] \<and> save (last (sink_frames (trace s))) path) \<and>
         save_snapshot save path s
           = save_snapshot save path (init_worker\<lparr>last_qimage := last_qimage s\<rparr>)"
  using reachable_cache_ok [OF assms]
  by (simp add: save_snapshot_def cache_ok_def cache_of_def)

theorem save_snapshot_result_witness:
  "reachable (plain_env 0) (one_frame (plain_env 0)) \<and>
   save_snapshot (\<lambda>q p. p = ''a.png'') ''a.png'' (one_frame (plain_env 0)) \<and>
   \<not> save_snapshot (\<lambda>q p. p = ''a.png'') ''b.png'' (one_frame (plain_env 0)) \<and>
   \<not> save_snapshot (\<lambda>q p. True) ''a.png'' init_worker"
proof -
  have r0: "reachable (plain_env 0) init_worker" by (rule reach_init)
  have "reachable (plain_env 0) (apply_command (plain_env 0) (CStartRecording ''out.mkv'') init_worker)"
    by (rule reach_command [OF r0])
  then have "reachable (plain_env 0) requested"
    by (simp add: apply_command_def requested_def)
  then have r1: "reachable (plain_env 0) (one_frame (plain_env 0))"
    unfolding one_frame_def by (rule reach_frames)
  show ?thesis
    using r1 save_snapshot_result [OF r1, of "\<lambda>q p. p = ''a.png''" "''a.png''"]
      save_snapshot_result [OF r1, of "\<lambda>q p. p = ''a.png''" "''b.png''"]
      save_snapshot_result [OF r0, of "\<lambda>q p. True" "''a.png''"]
    by (simp add: one_frame_def eval_defs)
qed

subsection \<open>The reconnect loop\<close>

lemma stop_recording_trace:
  "trace (stop_recording env s) = trace s @ (if recording s then [RecordingStatus False] else [])"
  by (simp add: stop_recording_def close_container_def emit_def Let_def split: option.splits)

lemma finish_trace:
  "trace (finish env s) = trace s @ (if recording s then [RecordingStatus False] else []) @ [Stopped]"
  by (simp add: finish_def emit_def stop_recording_trace)






text \<open>
  C5: a connection attempt whose source has no video stream announces
  "No video stream found" and ends the run at once, whatever attempts the script
  still holds: after the two status texts come only the recording cleanup and one
  \<open>stopped\<close> signal. An error on opening the source or in the middle of the stream,
  with no stop requested, announces a text that ends in "; retrying in 2s...", sleeps,
  and goes on with the next attempt.
\<close>

theorem no_video_stream_exits_without_retry:
  assumes "\<not> stop_flag s"
  shows "(source a = NoVideoStream \<longrightarrow>
            (\<exists>s'. run env (a # rest) s = Some s' \<and>
                  trace s' = trace s @ [Status connecting_msg, Status ''No video stream found'']
                               @ (if recording s then [RecordingStatus False] else []) @ [Stopped])) \<and>
         (source a = OpenError e \<and>
          \<not> stop_flag (controller env (end_cmds a) (emit (Status connecting_msg) s)) \<longrightarrow>
            run env (a # rest) s =
              run env rest (controller env (sleep_cmds a) (emit (Sleep 2000) (emit (Status (retry_msg e))
                (controller env (end_cmds a) (emit (Status connecting_msg) s)))))) \<and>
         (source a = Video info items en \<and>
          decode_loop env info en items (emit (Status ''Playing'') (emit (Status connecting_msg) s)) = (Some e, s2) \<and>
          \<not> stop_flag (controller env (end_cmds a) s2) \<longrightarrow>
            run env (a # rest) s =
              run env rest (controller env (sleep_cmds a) (emit (Sleep 2000) (emit (Status (retry_msg e))
                (controller env (end_cmds a) s2))))) \<and>
         suffix (''; retrying in 2s'' @ ellipsis) (retry_msg e)"
proof (intro conjI impI)
  assume nv: "source a = NoVideoStream"
  have "run env (a # rest) s
          = Some (finish env (emit (Status ''No video stream found'') (emit (Status connecting_msg) s)))"
    using assms nv by (simp add: attempt_step_def)
  moreover have "trace (finish env (emit (Status ''No video stream found'') (emit (Status connecting_msg) s)))
          = trace s @ [Status connecting_msg, Status ''No video stream found'']
              @ (if recording s then [RecordingStatus False] else []) @ [Stopped]"
    by (simp add: finish_trace) (simp add: emit_def)
  ultimately show "\<exists>s'. run env (a # rest) s = Some s' \<and>
      trace s' = trace s @ [Status connecting_msg, Status ''No video stream found'']
                   @ (if recording s then [RecordingStatus False] else []) @ [Stopped]"
    by blast
next
  assume "source a = OpenError e \<and>
          \<not> stop_flag (controller env (end_cmds a) (emit (Status connecting_msg) s))"
  then show "run env (a # rest) s =
              run env rest (controller env (sleep_cmds a) (emit (Sleep 2000) (emit (Status (retry_msg e))
                (controller env (end_cmds a) (emit (Status connecting_msg) s)))))"
    using assms by (simp add: attempt_step_def backoff_def)
next
  assume "source a = Video info items en \<and>
          decode_loop env info en items (emit (Status ''Playing'') (emit (Status connecting_msg) s)) = (Some e, s2) \<and>
          \<not> stop_flag (controller env (end_cmds a) s2)"
  then show "run env (a # rest) s =
              run env rest (controller env (sleep_cmds a) (emit (Sleep 2000) (emit (Status (retry_msg e))
                (controller env (end_cmds a) s2))))"
    using assms by (simp add: attempt_step_def backoff_def)
next
  show "suffix (''; retrying in 2s'' @ ellipsis) (retry_msg e)"
    by (cases e) (simp_all add: suffix_def)
qed

theorem no_video_stream_exits_without_retry_witness:
  "\<not> stop_flag init_worker \<and>
   map_option trace (run (plain_env 0) [no_video, ended_stream []] init_worker)
     = Some [Status connecting_msg, Status ''No video stream found'', Stopped] \<and>
   map_option trace (run (plain_env 0) [open_timeout [CSetStop], no_video] init_worker)
     = Some [Status connecting_msg, Status (retry_msg (AvError ''timeout'')), Sleep 2000, Stopped]"
proof -
  have h: "\<not> stop_flag init_worker" by (simp add: init_worker_def)
  have s1: "source no_video = NoVideoStream" by (simp add: no_video_def)
  have s2: "source (open_timeout [CSetStop]) = OpenError (AvError ''timeout'') \<and>
            \<not> stop_flag (controller (plain_env 0) (end_cmds (open_timeout [CSetStop]))
                 (emit (Status connecting_msg) init_worker))"
    by (simp add: open_timeout_def emit_def init_worker_def)
  from no_video_stream_exits_without_retry [OF h, of no_video "plain_env 0" "[ended_stream []]"] s1
  have a: "map_option trace (run (plain_env 0) [no_video, ended_stream []] init_worker)
     = Some [Status connecting_msg, Status ''No video stream found'', Stopped]"
    by (auto simp: init_worker_def)
  from no_video_stream_exits_without_retry [OF h, where a = "open_timeout [CSetStop]"
      and e = "AvError ''timeout''" and env = "plain_env 0" and rest = "[no_video]"] s2
  have "run (plain_env 0) [open_timeout [CSetStop], no_video] init_worker =
          run (plain_env 0) [no_video] (controller (plain_env 0) (sleep_cmds (open_timeout [CSetStop]))
            (emit (Sleep 2000) (emit (Status (retry_msg (AvError ''timeout'')))
              (controller (plain_env 0) (end_cmds (open_timeout [CSetStop]))
                 (emit (Status connecting_msg) init_worker)))))"
    by blast
  then have b: "map_option trace (run (plain_env 0) [open_timeout [CSetStop], no_video] init_worker)
     = Some [Status connecting_msg, Status (retry_msg (AvError ''timeout'')), Sleep 2000, Stopped]"
    by (simp add: open_timeout_def eval_defs)
  show ?thesis using h a b by simp
qed






subsection \<open>Where the code departs from its specification\<close>

text \<open>
  When the worker thread itself leaves the loop, the encoder is drained before the
  container is closed: the frame held back by the encoder reaches the file.
\<close>

lemma worker_exit_flushes:
  "map_option files
     (run (plain_env 1)
        [\<lparr>source = Video cam_info [plain_item (Some 0) 7] EndOfStream, end_cmds = [CSetStop],
          flush_enc_err = False, flush_mux_err = None, sleep_cmds = []\<rparr>] requested)
     = Some [(''out.mkv'', [\<lparr>nf_picture = picture7, nf_pts = 0\<rparr>])]"
  by (simp add: picture7_def eval_defs)

text \<open>
  C1 (the code departs from it): one frame has been encoded without error by an
  encoder that holds back one frame, and the controller calls \<open>stop_recording\<close>.
  The container is closed without the encoder being drained: the file holds no
  packet.
\<close>

theorem stop_recording_drops_pending:
  "map nf_pts (submitted_frames (one_frame (plain_env 1))) = [0] \<and>
   trace (one_frame (plain_env 1)) = [RecordingStatus True, FrameReady picture7] \<and>
   files (stop_recording (plain_env 1) (one_frame (plain_env 1))) = [(''out.mkv'', [])]"
  by (simp add: one_frame_def picture7_def eval_defs)

text \<open>
  C3 (the code departs from it): \<open>av.open\<close> succeeds on the first frame and
  \<open>add_stream\<close> raises. The flag is cleared and the failure is reported, the frame
  is still delivered, but the container that was opened stays assigned and is never
  closed: not by the handler, and not by a later \<open>stop_recording\<close>, which returns at
  once because the flag is clear.
\<close>

theorem init_failure_leaves_container_open:
  "\<not> recording (one_frame no_codec_env) \<and>
   output_container (one_frame no_codec_env)
     = Some \<lparr>oc_path = ''out.mkv'', oc_format = ''matroska'', oc_packets = []\<rparr> \<and>
   output_stream (one_frame no_codec_env) = None \<and>
   files (one_frame no_codec_env) = [] \<and>
   trace (one_frame no_codec_env)
     = [RecordingStatus True, Status ''Recording init failed: codec not found'',
        RecordingStatus False, FrameReady picture7] \<and>
   stop_recording no_codec_env (one_frame no_codec_env) = one_frame no_codec_env"
  by (simp add: one_frame_def no_codec_env_def picture7_def eval_defs)

text \<open>
  C8 (the code departs from it): the initialisation of a first recording fails in
  \<open>add_stream\<close>, which leaves the opened container assigned. A
  second \<open>start_recording\<close> is accepted and \<open>is_recording\<close> answers \<open>True\<close>, but the
  tests of lines 144 and 162 both fail for every frame from then on, even when every
  library call would succeed: the frames reach the frame sink, none is handed to the
  encoder, and no status text reports it.
\<close>

theorem frames_skipped_after_failed_init:
  "fst (start_recording ''second.mkv'' (one_frame no_codec_env)) \<and>
   is_recording stale_restart \<and>
   sink_frames (trace (snd (decode_loop (plain_env 0) cam_info EndOfStream
      [plain_item (Some 40) 8, plain_item (Some 80) 9] stale_restart)))
     = [picture7, \<lparr>img_w = 640, img_h = 480, img_data = 8\<rparr>,
        \<lparr>img_w = 640, img_h = 480, img_data = 9\<rparr>] \<and>
   submitted_frames (snd (decode_loop (plain_env 0) cam_info EndOfStream
      [plain_item (Some 40) 8, plain_item (Some 80) 9] stale_restart)) = [] \<and>
   is_recording (snd (decode_loop (plain_env 0) cam_info EndOfStream
      [plain_item (Some 40) 8, plain_item (Some 80) 9] stale_restart)) \<and>
   trace (snd (decode_loop (plain_env 0) cam_info EndOfStream
      [plain_item (Some 40) 8, plain_item (Some 80) 9] stale_restart))
     = [RecordingStatus True, Status ''Recording init failed: codec not found'',
        RecordingStatus False, FrameReady picture7, RecordingStatus True,
        FrameReady \<lparr>img_w = 640, img_h = 480, img_data = 8\<rparr>,
        FrameReady \<lparr>img_w = 640, img_h = 480, img_data = 9\<rparr>]"
  by (simp add: stale_restart_def one_frame_def no_codec_env_def picture7_def
      is_recording_def eval_defs)

end
